theory Spec2Isabelle
  imports Complex_Main
begin

section \<open>Python strings\<close>

text \<open>
  Python \<open>str\<close> values are modelled as \<^typ>\<open>string\<close>. The model covers ASCII text:
  \<open>str.isdigit\<close> and the regular-expression class \<open>\d\<close> are the ten ASCII digits,
  \<open>str.lower\<close> maps \<open>A\<close>..\<open>Z\<close> to \<open>a\<close>..\<open>z\<close>.
\<close>

definition isdigit :: "char \<Rightarrow> bool" where
  "isdigit c = (c \<in> set ''0123456789'')"

definition startswith :: "string \<Rightarrow> string \<Rightarrow> bool" where
  "startswith s p = (take (length p) s = p)"

definition lower_char :: "char \<Rightarrow> char" where
  "lower_char c =
     (case map_of (zip ''ABCDEFGHIJKLMNOPQRSTUVWXYZ'' ''abcdefghijklmnopqrstuvwxyz'') c of
        None \<Rightarrow> c
      | Some d \<Rightarrow> d)"

definition lower :: "string \<Rightarrow> string" where
  "lower s = map lower_char s"

section \<open>Phone numbers (utils/helpers.py, models/business.py)\<close>

text \<open>
  The same normalisation block occurs, character for character, in
  \<open>extract_phone_numbers\<close> (helpers.py 45-52), in \<open>validate_sri_lankan_phone\<close>
  (helpers.py 69-75) and in \<open>PhoneNumber.__post_init__\<close> (business.py 43-50):
  \<^verbatim>\<open>
    number = ''.join(filter(lambda x: x.isdigit() or x == '+', raw))
    if number.startswith('0'):
        number = '+94' + number[1:]
    elif not number.startswith('+'):
        number = '+94' + number
  \<close>
\<close>

definition keep_phone_chars :: "string \<Rightarrow> string" where
  "keep_phone_chars raw = filter (\<lambda>x. isdigit x \<or> x = CHR ''+'') raw"

definition to_international :: "string \<Rightarrow> string" where
  "to_international number =
     (if startswith number ''0'' then ''+94'' @ drop 1 number
      else if \<not> startswith number ''+'' then ''+94'' @ number
      else number)"

definition normalize_number :: "string \<Rightarrow> string" where
  "normalize_number raw = to_international (keep_phone_chars raw)"

subsection \<open>The three patterns and \<open>re.findall\<close>\<close>

text \<open>
  \<^verbatim>\<open>
    SL_MOBILE_PATTERN   = r'(?:\+94|0)7[0-2,4-8]\d{7}'
    SL_LANDLINE_PATTERN = r'(?:\+94|0)(?:[1-9][0-9])\d{6}'
    SL_GENERAL_PATTERN  = r'(?:\+94|0)\d{9}'
  \<close>
  Every pattern is the country-code group followed by a fixed sequence of character
  classes. The class \<open>[0-2,4-8]\<close> contains the comma. None of the classes contains a
  space or a dash.
\<close>

fun match_seq :: "(char \<Rightarrow> bool) list \<Rightarrow> string \<Rightarrow> bool" where
  "match_seq [] s = True"
| "match_seq (p # ps) [] = False"
| "match_seq (p # ps) (c # cs) = (p c \<and> match_seq ps cs)"

definition country_code_len :: "string \<Rightarrow> nat option" where
  \<comment> \<open>\<open>(?:\+94|0)\<close>: the length of the alternative that matches at the start of the text\<close>
  "country_code_len s =
     (if startswith s ''+94'' then Some 3
      else if startswith s ''0'' then Some 1
      else None)"

definition SL_MOBILE_PATTERN :: "(char \<Rightarrow> bool) list" where
  "SL_MOBILE_PATTERN =
     [\<lambda>c. c = CHR ''7'', \<lambda>c. c \<in> set ''012,45678''] @ replicate 7 isdigit"

definition SL_LANDLINE_PATTERN :: "(char \<Rightarrow> bool) list" where
  "SL_LANDLINE_PATTERN =
     [\<lambda>c. c \<in> set ''123456789'', isdigit] @ replicate 6 isdigit"

definition SL_GENERAL_PATTERN :: "(char \<Rightarrow> bool) list" where
  "SL_GENERAL_PATTERN = replicate 9 isdigit"

definition match_pattern :: "(char \<Rightarrow> bool) list \<Rightarrow> string \<Rightarrow> nat option" where
  \<comment> \<open>length of the match of one pattern anchored at the start of the text\<close>
  "match_pattern body s =
     (case country_code_len s of
        None \<Rightarrow> None
      | Some k \<Rightarrow> if match_seq body (drop k s) then Some (k + length body) else None)"

definition match_combined :: "string \<Rightarrow> nat option" where
  \<comment> \<open>the alternation \<open>(MOBILE|LANDLINE|GENERAL)\<close>: the first alternative that matches wins\<close>
  "match_combined s =
     (case match_pattern SL_MOBILE_PATTERN s of
        Some n \<Rightarrow> Some n
      | None \<Rightarrow>
          (case match_pattern SL_LANDLINE_PATTERN s of
             Some n \<Rightarrow> Some n
           | None \<Rightarrow> match_pattern SL_GENERAL_PATTERN s))"

lemma match_combined_pos: "match_combined s = Some n \<Longrightarrow> 0 < n"
  by (auto simp: match_combined_def match_pattern_def country_code_len_def
      split: option.splits if_splits)

text \<open>
  \<open>re.findall\<close> scans from left to right; a match is consumed whole, and where nothing
  matches the scan moves on by one character. The pattern has one capturing group, the
  whole alternation, so the strings returned are the matched substrings.
\<close>

function findall :: "string \<Rightarrow> string list" where
  "findall [] = []"
| "findall (c # cs) =
     (case match_combined (c # cs) of
        Some n \<Rightarrow> take n (c # cs) # findall (drop n (c # cs))
      | None \<Rightarrow> findall cs)"
  by pat_completeness auto
termination
  by (relation "measure length") (auto dest: match_combined_pos)

definition extract_phone_numbers :: "string \<Rightarrow> string list" where
  "extract_phone_numbers text = map normalize_number (findall text)"

subsection \<open>Validation\<close>

record phone_metadata =
  md_is_mobile :: bool
  md_region :: "string option"
  md_normalized :: string
  md_local_format :: string

datatype validation_dict = ErrorDict string | Metadata phone_metadata

definition mobile_prefixes :: "string list" where
  "mobile_prefixes = [''70'', ''71'', ''72'', ''74'', ''75'', ''76'', ''77'', ''78'']"

definition landline_regions :: "(string \<times> string) list" where
  "landline_regions =
     [(''11'', ''Colombo''), (''33'', ''Gampaha''), (''34'', ''Kalutara''),
      (''81'', ''Kandy''), (''66'', ''Matale''), (''52'', ''Nuwara Eliya''),
      (''91'', ''Galle''), (''41'', ''Matara''), (''47'', ''Hambantota''),
      (''21'', ''Jaffna/Kilinochchi''), (''23'', ''Mannar''),
      (''24'', ''Vavuniya/Mullaitivu''), (''65'', ''Batticaloa''), (''63'', ''Ampara''),
      (''26'', ''Trincomalee''), (''37'', ''Kurunegala''), (''32'', ''Puttalam''),
      (''25'', ''Anuradhapura''), (''27'', ''Polonnaruwa''),
      (''55'', ''Badulla/Monaragala''), (''45'', ''Ratnapura''), (''35'', ''Kegalle'')]"

definition validate_sri_lankan_phone :: "string \<Rightarrow> bool \<times> validation_dict" where
  "validate_sri_lankan_phone phone =
     (let number = normalize_number phone in
      if \<not> (startswith number ''+94'' \<and> length number = 12)
      then (False, ErrorDict ''Invalid length or country code'')
      else
        let prefix = take 2 (drop 3 number);
            is_mobile = (prefix \<in> set mobile_prefixes);
            region = map_of landline_regions prefix
        in (True, Metadata \<lparr> md_is_mobile = is_mobile, md_region = region,
                              md_normalized = number,
                              md_local_format = ''0'' @ drop 3 number \<rparr>))"

subsection \<open>The \<open>PhoneNumber\<close> dataclass\<close>

record PhoneNumber =
  number :: string
  is_mobile :: "bool option"
  is_validated :: bool
  region :: "string option"

definition post_init :: "PhoneNumber \<Rightarrow> PhoneNumber" where
  "post_init self = self\<lparr> number := normalize_number (number self) \<rparr>"

definition PhoneNumber_new ::
  "string \<Rightarrow> bool option \<Rightarrow> bool \<Rightarrow> string option \<Rightarrow> PhoneNumber" where
  \<comment> \<open>the generated \<open>__init__\<close> stores the fields and then runs \<open>__post_init__\<close>\<close>
  "PhoneNumber_new n m v r =
     post_init \<lparr> number = n, is_mobile = m, is_validated = v, region = r \<rparr>"

section \<open>Configuration (config/settings.py)\<close>

text \<open>
  The parts of \<open>DEFAULT_CONFIG\<close> that the orchestrator and the phone validation read.
  \<open>get_config\<close> returns \<open>DEFAULT_CONFIG\<close>: the merge of a user configuration is a
  placeholder (\<open>pass\<close>). A field is named by its path in the nested dictionary.
\<close>

record major_city =
  city_name :: string
  city_lat :: real
  city_lng :: real

record config =
  browser_headless :: bool
  browser_stealth_mode :: bool
  location_default_radius :: real
  location_subdivision_threshold :: real
  location_major_cities :: "major_city list"
  location_districts :: "string list"
  extraction_max_results_per_query :: int
  phone_validation_mobile_prefixes :: "string list"
  phone_validation_landline_prefixes :: "(string \<times> string) list"

definition DEFAULT_CONFIG :: config where
  "DEFAULT_CONFIG =
     \<lparr> browser_headless = True,
       browser_stealth_mode = True,
       location_default_radius = 5,
       location_subdivision_threshold = 20,
       location_major_cities =
         [\<lparr> city_name = ''Colombo'', city_lat = 6.9271, city_lng = 79.8612 \<rparr>,
          \<lparr> city_name = ''Kandy'', city_lat = 7.2906, city_lng = 80.6337 \<rparr>,
          \<lparr> city_name = ''Galle'', city_lat = 6.0535, city_lng = 80.2210 \<rparr>,
          \<lparr> city_name = ''Jaffna'', city_lat = 9.6615, city_lng = 80.0255 \<rparr>,
          \<lparr> city_name = ''Batticaloa'', city_lat = 7.7170, city_lng = 81.7000 \<rparr>],
       location_districts =
         [''Ampara'', ''Anuradhapura'', ''Badulla'', ''Batticaloa'', ''Colombo'',
          ''Galle'', ''Gampaha'', ''Hambantota'', ''Jaffna'', ''Kalutara'',
          ''Kandy'', ''Kegalle'', ''Kilinochchi'', ''Kurunegala'', ''Mannar'',
          ''Matale'', ''Matara'', ''Monaragala'', ''Mullaitivu'', ''Nuwara Eliya'',
          ''Polonnaruwa'', ''Puttalam'', ''Ratnapura'', ''Trincomalee'', ''Vavuniya''],
       extraction_max_results_per_query = 120,
       phone_validation_mobile_prefixes =
         [''70'', ''71'', ''72'', ''74'', ''75'', ''76'', ''77'', ''78''],
       phone_validation_landline_prefixes =
         [(''Colombo'', ''11''), (''Gampaha'', ''33''), (''Kalutara'', ''34''),
          (''Kandy'', ''81''), (''Matale'', ''66''), (''Nuwara Eliya'', ''52''),
          (''Galle'', ''91''), (''Matara'', ''41''), (''Hambantota'', ''47''),
          (''Jaffna'', ''21''), (''Kilinochchi'', ''21''), (''Mannar'', ''23''),
          (''Vavuniya'', ''24''), (''Mullaitivu'', ''24''), (''Batticaloa'', ''65''),
          (''Ampara'', ''63''), (''Trincomalee'', ''26''), (''Kurunegala'', ''37''),
          (''Puttalam'', ''32''), (''Anuradhapura'', ''25''), (''Polonnaruwa'', ''27''),
          (''Badulla'', ''55''), (''Monaragala'', ''55''), (''Ratnapura'', ''45''),
          (''Kegalle'', ''35'')] \<rparr>"

section \<open>Result model (models/business.py)\<close>

record Location =
  latitude :: real
  longitude :: real
  address :: "string option"
  city :: "string option"
  district :: "string option"
  country :: string

record Business =
  name :: string
  phone_numbers :: "PhoneNumber list"
  business_location :: "Location option"
  website :: "string option"
  category :: "string option"
  rating :: "real option"
  reviews_count :: "int option"
  place_id :: "string option"
  hours :: "(string \<times> string) list option"
  extracted_at :: nat

record SearchParameters =
  query :: string
  location :: "Location option"
  radius_km :: real
  language :: string
  max_results :: int

record SearchResult =
  parameters :: SearchParameters
  businesses :: "Business list"
  total_found :: int
  success :: bool
  error_message :: "string option"
  search_time :: real

definition Location_new ::
  "real \<Rightarrow> real \<Rightarrow> string option \<Rightarrow> string option \<Rightarrow> Location" where
  \<comment> \<open>\<open>Location(latitude=, longitude=, city=, district=)\<close>, the other fields at their defaults\<close>
  "Location_new lat lng c d =
     \<lparr> latitude = lat, longitude = lng, address = None, city = c, district = d,
       country = ''Sri Lanka'' \<rparr>"

definition SearchParameters_new ::
  "string \<Rightarrow> Location option \<Rightarrow> real \<Rightarrow> int \<Rightarrow> SearchParameters" where
  "SearchParameters_new q l r m =
     \<lparr> query = q, location = l, radius_km = r, language = ''en'', max_results = m \<rparr>"

definition SearchResult_new :: "SearchParameters \<Rightarrow> SearchResult" where
  "SearchResult_new params =
     \<lparr> parameters = params, businesses = [], total_found = 0, success = True,
       error_message = None, search_time = 0 \<rparr>"

definition add_business :: "SearchResult \<Rightarrow> Business \<Rightarrow> SearchResult" where
  "add_business self business =
     (let bs = businesses self @ [business]
      in self\<lparr> businesses := bs, total_found := int (length bs) \<rparr>)"

section \<open>Area subdivision (utils/helpers.py)\<close>

datatype error = NameError string | ZeroDivisionError

text \<open>
  The imports of helpers.py are \<open>re\<close>, \<open>logging\<close>, \<open>random\<close>, \<open>time\<close>, \<open>typing\<close>,
  \<open>pathlib\<close>, \<open>json\<close>, \<open>csv\<close>, \<open>datetime\<close> and four names of the models module:
  the name \<open>math\<close> is bound nowhere in the module. Past the guard of line 258 the first
  statement, line 269,
  \<^verbatim>\<open>radius_deg = radius_km / (earth_radius * math.pi / 180.0)\<close>
  looks \<open>math\<close> up and raises \<open>NameError\<close>; nothing after it runs. Floats are modelled
  as reals; the guard is a comparison, which floats decide exactly. A parameter whose
  name is also a field of a record above is written with a prime.
\<close>

definition subdivide_area ::
  "real \<Rightarrow> real \<Rightarrow> real \<Rightarrow> real \<Rightarrow> error + (real \<times> real \<times> real) list" where
  "subdivide_area center_lat center_lng radius_km' max_radius_km =
     (if radius_km' \<le> max_radius_km then Inr [(center_lat, center_lng, radius_km')]
      else Inl (NameError ''math''))"

text \<open>
  Lines 261-288 as they would run if \<open>math\<close> were bound to the standard module (a float
  division by zero raises): the lattice the function is written to build. It is kept
  apart from \<open>subdivide_area\<close>, which is the function as the module defines it.
\<close>

definition lattice_cell ::
  "real \<Rightarrow> real \<Rightarrow> real \<Rightarrow> real \<Rightarrow> real \<Rightarrow> int \<Rightarrow> int \<Rightarrow> (real \<times> real \<times> real) list" where
  "lattice_cell center_lat center_lng radius_deg max_radius_deg max_radius_km i j =
     (let lat = center_lat + of_int i * max_radius_deg;
          lng = center_lng + of_int j * max_radius_deg;
          distance = sqrt ((lat - center_lat)\<^sup>2 + (lng - center_lng)\<^sup>2)
      in if distance \<le> radius_deg then [(lat, lng, max_radius_km)] else [])"

definition subdivide_lattice ::
  "real \<Rightarrow> real \<Rightarrow> real \<Rightarrow> real \<Rightarrow> error + (real \<times> real \<times> real) list" where
  "subdivide_lattice center_lat center_lng radius_km' max_radius_km =
     (let earth_radius = 6371;
          radius_deg = radius_km' / (earth_radius * pi / 180);
          max_radius_deg = max_radius_km / (earth_radius * pi / 180)
      in if max_radius_deg = 0 then Inl ZeroDivisionError
         else
           let grid_size = \<lceil>radius_deg / max_radius_deg\<rceil> * 2;
               idx = [(- grid_size) div 2 .. grid_size div 2]
           in Inr (concat (map (\<lambda>i. concat (map (\<lambda>j.
                  lattice_cell center_lat center_lng radius_deg max_radius_deg
                    max_radius_km i j) idx)) idx)))"

section \<open>Location resolution (main.py, \<open>_process_location\<close>)\<close>

text \<open>
  The \<open>location\<close> argument is duck-typed: \<open>None\<close>, a \<open>Location\<close>, a dictionary, a string,
  or anything else. For a dictionary only the six keys the method reads are kept, the
  coordinates as numbers.
\<close>

record location_dict =
  dict_lat :: "real option"
  dict_latitude :: "real option"
  dict_lng :: "real option"
  dict_longitude :: "real option"
  dict_city :: "string option"
  dict_district :: "string option"

datatype location_input =
    LocationNone
  | LocationObject Location
  | LocationDict location_dict
  | LocationStr string
  | LocationOther

definition py_or :: "real option \<Rightarrow> real option \<Rightarrow> real option" where
  \<comment> \<open>\<open>a or b\<close>: \<open>None\<close> and \<open>0\<close> are falsy\<close>
  "py_or a b = (case a of None \<Rightarrow> b | Some x \<Rightarrow> if x = 0 then b else Some x)"

definition process_location :: "config \<Rightarrow> location_input \<Rightarrow> Location option" where
  "process_location cfg location' =
     (case location' of
        LocationNone \<Rightarrow> None
      | LocationObject l \<Rightarrow> Some l
      | LocationDict d \<Rightarrow>
          (case (py_or (dict_lat d) (dict_latitude d), py_or (dict_lng d) (dict_longitude d)) of
             (Some lat, Some lng) \<Rightarrow> Some (Location_new lat lng (dict_city d) (dict_district d))
           | _ \<Rightarrow> None)
      | LocationStr s \<Rightarrow>
          (case find (\<lambda>c. lower (city_name c) = lower s) (location_major_cities cfg) of
             Some c \<Rightarrow> Some (Location_new (city_lat c) (city_lng c) (Some (city_name c)) None)
           | None \<Rightarrow>
               (case find (\<lambda>d. lower d = lower s) (location_districts cfg) of
                  Some d \<Rightarrow> Some (Location_new 7.5 80.7 None (Some d))
                | None \<Rightarrow> None))
      | LocationOther \<Rightarrow> None)"

section \<open>Search orchestration (main.py)\<close>

text \<open>
  The extraction collaborator is \<open>PlaywrightScraper.search_businesses\<close>, a browser
  session outside the core. It is a parameter of the model: \<open>collab i p\<close> is what the
  \<open>i\<close>-th invocation of one top-level request (counted from 0) returns for the
  parameters \<open>p\<close>. The orchestrator functions return, next to their outcome, the list
  of parameters they dispatched to the collaborator, in order. The methods
  \<open>_process_location\<close> and \<open>_search_subdivided_area\<close> are named without their leading
  underscore.
\<close>

type_synonym collaborator = "nat \<Rightarrow> SearchParameters \<Rightarrow> SearchResult"

fun merge_businesses :: "Business list \<Rightarrow> SearchResult \<Rightarrow> SearchResult" where
  \<comment> \<open>lines 241-244: the loop over \<open>sub_result.businesses\<close>\<close>
  "merge_businesses [] combined_result = combined_result"
| "merge_businesses (business # rest) combined_result =
     merge_businesses rest
       (if \<not> list_ex (\<lambda>b. name b = name business) (businesses combined_result)
        then add_business combined_result business
        else combined_result)"

definition sub_params :: "SearchParameters \<Rightarrow> real \<times> real \<times> real \<Rightarrow> SearchParameters" where
  \<comment> \<open>lines 218-231: the parameters of one subdivision\<close>
  "sub_params params cell =
     (case cell of (lat, lng, radius) \<Rightarrow>
        let sub_location =
              Location_new lat lng
                (case location params of Some l \<Rightarrow> city l | None \<Rightarrow> None)
                (case location params of Some l \<Rightarrow> district l | None \<Rightarrow> None)
        in SearchParameters_new (query params) (Some sub_location) radius (max_results params))"

fun search_cells ::
  "collaborator \<Rightarrow> SearchParameters \<Rightarrow> nat \<Rightarrow> (real \<times> real \<times> real) list \<Rightarrow> SearchResult
     \<Rightarrow> SearchResult \<times> SearchParameters list" where
  \<comment> \<open>lines 214-252: the loop over the subdivisions, from subdivision \<open>i\<close> on\<close>
  "search_cells collab params i [] combined_result = (combined_result, [])"
| "search_cells collab params i (cell # rest) combined_result =
     (let sub_result = collab i (sub_params params cell);
          combined_result = merge_businesses (businesses sub_result) combined_result
      in if int (length (businesses combined_result)) \<ge> max_results params
         then (combined_result, [sub_params params cell])
         else
           (case search_cells collab params (Suc i) rest combined_result of
              (r, calls) \<Rightarrow> (r, sub_params params cell # calls)))"

definition search_subdivided_area ::
  "config \<Rightarrow> collaborator \<Rightarrow> SearchParameters
     \<Rightarrow> (error + SearchResult) \<times> SearchParameters list" where
  "search_subdivided_area cfg collab params =
     (let combined_result = SearchResult_new params;
          center_lat = (case location params of Some l \<Rightarrow> latitude l | None \<Rightarrow> 7.5);
          center_lng = (case location params of Some l \<Rightarrow> longitude l | None \<Rightarrow> 80.7)
      in case subdivide_area center_lat center_lng (radius_km params)
                (location_subdivision_threshold cfg) of
           Inl e \<Rightarrow> (Inl e, [])
         | Inr subdivisions \<Rightarrow>
             (case search_cells collab params 0 subdivisions combined_result of
                (r, calls) \<Rightarrow> (Inr r, calls)))"

definition search ::
  "config \<Rightarrow> collaborator \<Rightarrow> string \<Rightarrow> location_input \<Rightarrow> real option \<Rightarrow> int option
     \<Rightarrow> (error + SearchResult) \<times> SearchParameters list" where
  "search cfg collab query' location' radius_km' max_results' =
     (let radius = (case radius_km' of None \<Rightarrow> location_default_radius cfg | Some r \<Rightarrow> r);
          maxr = (case max_results' of
                    None \<Rightarrow> extraction_max_results_per_query cfg
                  | Some m \<Rightarrow> m);
          location_obj = process_location cfg location';
          params = SearchParameters_new query' location_obj radius maxr
      in if radius > location_subdivision_threshold cfg
         then search_subdivided_area cfg collab params
         else (Inr (collab 0 params), [params]))"

text \<open>
  The results the collaborator gives for the subdivisions \<open>cells\<close>, numbered from \<open>i\<close>,
  when each of them is searched.
\<close>

fun cell_results ::
  "collaborator \<Rightarrow> SearchParameters \<Rightarrow> nat \<Rightarrow> (real \<times> real \<times> real) list \<Rightarrow> SearchResult list" where
  "cell_results collab params i [] = []"
| "cell_results collab params i (cell # rest) =
     collab i (sub_params params cell) # cell_results collab params (Suc i) rest"

subsection \<open>Example data\<close>

text \<open>
  \<open>Business_new n\<close> is \<open>Business(name=n)\<close>, every other field at its default (the time
  stamp is fixed). \<open>collaborator_result p bs\<close> is the shape of what a successful
  \<open>search_businesses\<close> returns: a fresh result for \<open>p\<close> to which the businesses found
  were added in order.
\<close>

definition Business_new :: "string \<Rightarrow> Business" where
  "Business_new n =
     \<lparr> name = n, phone_numbers = [], business_location = None, website = None,
       category = None, rating = None, reviews_count = None, place_id = None,
       hours = None, extracted_at = 0 \<rparr>"

definition collaborator_result :: "SearchParameters \<Rightarrow> Business list \<Rightarrow> SearchResult" where
  "collaborator_result p bs = foldl add_business (SearchResult_new p) bs"

definition example_collab :: collaborator where
  \<comment> \<open>five different businesses over three subdivisions\<close>
  "example_collab i p =
     collaborator_result p
       (if i = 0 then [Business_new ''A'', Business_new ''B'']
        else if i = 1 then [Business_new ''C'', Business_new ''D'']
        else [Business_new ''E''])"

definition cafe_collab :: collaborator where
  \<comment> \<open>the second subdivision finds \<open>Cafe X\<close> again, with a web site\<close>
  "cafe_collab i p =
     collaborator_result p
       (if i = 0 then [Business_new ''Cafe X'']
        else [(Business_new ''Cafe X'')\<lparr> website := Some ''https://cafe-x.example'' \<rparr>,
              Business_new ''Cafe Y''])"

definition empty_collab :: collaborator where
  \<comment> \<open>a collaborator that finds nothing\<close>
  "empty_collab i p = collaborator_result p []"

definition example_params :: SearchParameters where
  \<comment> \<open>a request of radius 30 km for at most three results, no location given\<close>
  "example_params = SearchParameters_new ''cafe'' None 30 3"

definition example_cells :: "(real \<times> real \<times> real) list" where
  "example_cells = [(7.5, 80.7, 20), (7.5, 80.88, 20), (7.68, 80.7, 20)]"

section \<open>Properties of the phone canonicaliser\<close>

lemma keep_phone_chars_fixed:
  "list_all (\<lambda>x. isdigit x \<or> x = CHR ''+'') s \<Longrightarrow> keep_phone_chars s = s"
  by (induction s) (auto simp: keep_phone_chars_def)

lemma keep_phone_chars_all: "list_all (\<lambda>x. isdigit x \<or> x = CHR ''+'') (keep_phone_chars s)"
  by (simp add: keep_phone_chars_def list_all_iff)

lemma to_international_plus: "startswith s ''+'' \<Longrightarrow> to_international s = s"
  by (cases s) (auto simp: to_international_def startswith_def)

lemma startswith_plus94: "startswith s ''+94'' \<Longrightarrow> startswith s ''+''"
  by (cases s) (auto simp: startswith_def)

lemma normalize_number_head:
  "normalize_number raw \<noteq> [] \<and> hd (normalize_number raw) = CHR ''+''"
  by (cases "keep_phone_chars raw")
     (auto simp: normalize_number_def to_international_def startswith_def)

lemma normalize_number_chars:
  "list_all (\<lambda>x. isdigit x \<or> x = CHR ''+'') (normalize_number raw)"
  using keep_phone_chars_all [of raw]
  by (cases "keep_phone_chars raw")
     (auto simp: normalize_number_def to_international_def startswith_def isdigit_def)

lemma validate_valid_iff:
  "fst (validate_sri_lankan_phone p) \<longleftrightarrow>
     startswith (normalize_number p) ''+94'' \<and> length (normalize_number p) = 12"
  by (simp add: validate_sri_lankan_phone_def Let_def)

lemma validate_normalized:
  "validate_sri_lankan_phone p = (True, Metadata m) \<Longrightarrow> md_normalized m = normalize_number p"
  by (cases "startswith (normalize_number p) ''+94'' \<and> length (normalize_number p) = 12")
     (auto simp: validate_sri_lankan_phone_def Let_def)

lemma validate_depends_on_normalized:
  "normalize_number p = normalize_number q \<Longrightarrow>
     validate_sri_lankan_phone p = validate_sri_lankan_phone q"
  by (simp add: validate_sri_lankan_phone_def)

text \<open>
  Validating the normalised form of an accepted number gives the very same record: the
  form in which the idempotence reads on the outputs of the function.
\<close>

lemma validate_normalized_again:
  assumes "validate_sri_lankan_phone p = (True, Metadata m)"
  shows "validate_sri_lankan_phone (md_normalized m) = (True, Metadata m)"
proof -
  let ?n = "normalize_number p"
  have "fst (validate_sri_lankan_phone p)" using assms by simp
  then have ok: "startswith ?n ''+94''" "length ?n = 12"
    by (simp_all add: validate_valid_iff)
  have mn: "md_normalized m = ?n" using assms by (rule validate_normalized)
  have "normalize_number ?n = ?n"
    using ok(1) normalize_number_chars [of p]
    by (simp add: normalize_number_def keep_phone_chars_fixed to_international_plus
       startswith_plus94)
  then have "validate_sri_lankan_phone ?n = validate_sri_lankan_phone p"
    by (rule validate_depends_on_normalized)
  then show ?thesis using assms mn by simp
qed

lemma landline_codes_agree:
  "fst ` set landline_regions = snd ` set (phone_validation_landline_prefixes DEFAULT_CONFIG)"
  by (simp add: landline_regions_def DEFAULT_CONFIG_def)

lemma mobile_prefixes_agree:
  "mobile_prefixes = phone_validation_mobile_prefixes DEFAULT_CONFIG"
  by (simp add: mobile_prefixes_def DEFAULT_CONFIG_def)

lemma mobile_not_landline_all:
  "list_all (\<lambda>c. map_of landline_regions c = None) mobile_prefixes"
  by (simp add: mobile_prefixes_def landline_regions_def)

lemma mobile_not_landline: "c \<in> set mobile_prefixes \<Longrightarrow> map_of landline_regions c = None"
  using mobile_not_landline_all by (simp add: list_all_iff)

subsection \<open>The scenario of the spaced mobile number\<close>

text \<open>
  The substring \<open>071 234 5678\<close>, handed to the validation directly, is accepted: the
  validation strips the spaces before it checks the structure.
\<close>

lemma validate_spaced_mobile:
  "validate_sri_lankan_phone ''071 234 5678'' =
     (True, Metadata \<lparr> md_is_mobile = True, md_region = None,
                       md_normalized = ''+94712345678'',
                       md_local_format = ''0712345678'' \<rparr>)"
  by (simp add: validate_sri_lankan_phone_def normalize_number_def keep_phone_chars_def
      to_international_def startswith_def isdigit_def mobile_prefixes_def
      landline_regions_def)

text \<open>Written without separators, the number of the scenario is found.\<close>

lemma extract_unspaced_mobile:
  "extract_phone_numbers ''Call us: 0712345678'' = [''+94712345678'']"
  by (simp add: extract_phone_numbers_def match_combined_def match_pattern_def
      country_code_len_def startswith_def SL_MOBILE_PATTERN_def isdigit_def
      normalize_number_def keep_phone_chars_def to_international_def numeral_eq_Suc)

text \<open>
  C2. The scenario says that the text \<open>Call us: 071 234 5678\<close> yields one extracted
  candidate, which validates to \<open>+94712345678\<close>, mobile. The extraction returns no
  candidate at all for this text: each of the three patterns asks for an unbroken run of
  digits after the leading \<open>0\<close>, and the text has a space after \<open>071\<close>. The cleaning step
  that follows the match (its comment: remove spaces, dashes, etc.) never sees a
  separator.
\<close>

theorem extract_spaced_mobile_empty:
  "extract_phone_numbers ''Call us: 071 234 5678'' = []"
  by (simp add: extract_phone_numbers_def match_combined_def match_pattern_def
      country_code_len_def startswith_def SL_MOBILE_PATTERN_def SL_LANDLINE_PATTERN_def
      SL_GENERAL_PATTERN_def isdigit_def numeral_eq_Suc)

subsection \<open>Classification\<close>

text \<open>
  C8. For every structurally valid number (its normalised form starts with \<open>+94\<close> and has
  length 12) the validation succeeds, and with \<open>code\<close> the two characters after \<open>+94\<close>:
  the number is mobile if and only if \<open>code\<close> is one of 70, 71, 72, 74, 75, 76, 77, 78
  (the list of the function, which is the list of the configuration); otherwise it is a
  landline; the region is the entry of the region table for \<open>code\<close>, so it is a name
  exactly when \<open>code\<close> is in the table (whose codes are those of the configuration) and
  null for every other code, in particular for every mobile number.
\<close>

theorem validate_classification:
  assumes "startswith (normalize_number phone) ''+94''"
    and "length (normalize_number phone) = 12"
  shows "\<exists>m. validate_sri_lankan_phone phone = (True, Metadata m) \<and>
           md_normalized m = normalize_number phone \<and>
           (md_is_mobile m \<longleftrightarrow>
              take 2 (drop 3 (md_normalized m)) \<in>
                {''70'', ''71'', ''72'', ''74'', ''75'', ''76'', ''77'', ''78''}) \<and>
           (md_is_mobile m \<longleftrightarrow>
              take 2 (drop 3 (md_normalized m)) \<in>
                set (phone_validation_mobile_prefixes DEFAULT_CONFIG)) \<and>
           md_region m = map_of landline_regions (take 2 (drop 3 (md_normalized m))) \<and>
           (md_region m \<noteq> None \<longleftrightarrow>
              take 2 (drop 3 (md_normalized m)) \<in>
                snd ` set (phone_validation_landline_prefixes DEFAULT_CONFIG)) \<and>
           (md_is_mobile m \<longrightarrow> md_region m = None)"
proof -
  let ?n = "normalize_number phone"
  let ?code = "take 2 (drop 3 ?n)"
  let ?m = "\<lparr> md_is_mobile = (?code \<in> set mobile_prefixes),
              md_region = map_of landline_regions ?code,
              md_normalized = ?n, md_local_format = ''0'' @ drop 3 ?n \<rparr>"
  have v: "validate_sri_lankan_phone phone = (True, Metadata ?m)"
    using assms by (simp add: validate_sri_lankan_phone_def Let_def)
  have a: "(?code \<in> set mobile_prefixes) \<longleftrightarrow>
        ?code \<in> {''70'', ''71'', ''72'', ''74'', ''75'', ''76'', ''77'', ''78''}"
    by (simp add: mobile_prefixes_def)
  have b: "map_of landline_regions ?code \<noteq> None \<longleftrightarrow>
        ?code \<in> snd ` set (phone_validation_landline_prefixes DEFAULT_CONFIG)"
    unfolding landline_codes_agree [symmetric] by (simp add: map_of_eq_None_iff)
  have c: "?code \<in> set mobile_prefixes \<longrightarrow> map_of landline_regions ?code = None"
    using mobile_not_landline by blast
  show ?thesis
    apply (rule exI [of _ ?m])
    using v a b c mobile_prefixes_agree by simp
qed

theorem validate_classification_witness:
  "startswith (normalize_number ''011-2345678'') ''+94'' \<and>
   length (normalize_number ''011-2345678'') = 12 \<and>
   (\<exists>m. validate_sri_lankan_phone ''011-2345678'' = (True, Metadata m) \<and>
        md_normalized m = ''+94112345678'' \<and> \<not> md_is_mobile m \<and>
        md_region m = Some ''Colombo'')"
proof -
  have n: "normalize_number ''011-2345678'' = ''+94112345678''"
    by (simp add: normalize_number_def keep_phone_chars_def to_international_def
        startswith_def isdigit_def)
  have h1: "startswith (normalize_number ''011-2345678'') ''+94''"
    by (simp add: n startswith_def)
  have h2: "length (normalize_number ''011-2345678'') = 12"
    by (simp add: n)
  from validate_classification [OF h1 h2] obtain m where
    m: "validate_sri_lankan_phone ''011-2345678'' = (True, Metadata m)"
       "md_normalized m = normalize_number ''011-2345678''"
       "md_is_mobile m \<longleftrightarrow>
          take 2 (drop 3 (md_normalized m)) \<in>
            {''70'', ''71'', ''72'', ''74'', ''75'', ''76'', ''77'', ''78''}"
       "md_region m = map_of landline_regions (take 2 (drop 3 (md_normalized m)))"
    by blast
  have "\<not> md_is_mobile m" using m(2,3) by (simp add: n)
  moreover have "md_region m = Some ''Colombo''"
    using m(2,4) by (simp add: n landline_regions_def)
  ultimately show ?thesis using h1 h2 m(1,2) n by auto
qed

subsection \<open>Idempotence\<close>

text \<open>
  C9. Phone normalisation is idempotent: for every string that is already a valid
  normalised number (it starts with \<open>+94\<close>, has the total length 12, and is normalised:
  it holds nothing but digits and \<open>+\<close>, the characters the normalisation keeps), the
  validation accepts it and its \<open>normalized\<close> field is the string itself.
\<close>

theorem validate_idempotent:
  assumes "startswith s ''+94''" and "length s = 12"
    and "list_all (\<lambda>x. isdigit x \<or> x = CHR ''+'') s"
  shows "\<exists>m. validate_sri_lankan_phone s = (True, Metadata m) \<and> md_normalized m = s"
proof -
  have "normalize_number s = s"
    using assms by (simp add: normalize_number_def keep_phone_chars_fixed
        to_international_plus startswith_plus94)
  then show ?thesis
    using assms by (simp add: validate_sri_lankan_phone_def Let_def)
qed

theorem validate_idempotent_witness:
  "startswith ''+94712345678'' ''+94'' \<and> length ''+94712345678'' = 12 \<and>
   list_all (\<lambda>x. isdigit x \<or> x = CHR ''+'') ''+94712345678'' \<and>
   (\<exists>m. validate_sri_lankan_phone ''+94712345678'' = (True, Metadata m) \<and>
        md_normalized m = ''+94712345678'')"
proof -
  have h1: "startswith ''+94712345678'' ''+94''" by (simp add: startswith_def)
  have h2: "length ''+94712345678'' = 12" by simp
  have h3: "list_all (\<lambda>x. isdigit x \<or> x = CHR ''+'') ''+94712345678''"
    by (simp add: isdigit_def)
  show ?thesis using h1 h2 h3 validate_idempotent [OF h1 h2 h3] by blast
qed

subsection \<open>The constructor of \<open>PhoneNumber\<close>\<close>

text \<open>
  C10. For every raw string, the empty one and those that fail validation included, the
  \<open>number\<close> of the constructed PhoneNumber is not empty and begins with \<open>+\<close>. The
  constructor keeps digits and \<open>+\<close> only. When what is kept starts with \<open>0\<close>, the
  number is \<open>+94\<close> followed by what is kept without that \<open>0\<close>; when it starts with
  \<open>+\<close>, the number is what is kept; otherwise the number is \<open>+94\<close> followed by what is
  kept. The other three fields are as they were given. No constructed PhoneNumber holds
  a number in local format.
\<close>

theorem phone_number_international:
  "number (PhoneNumber_new raw m v r) =
     (if startswith (keep_phone_chars raw) ''0''
      then ''+94'' @ drop 1 (keep_phone_chars raw)
      else if startswith (keep_phone_chars raw) ''+''
      then keep_phone_chars raw
      else ''+94'' @ keep_phone_chars raw) \<and>
   number (PhoneNumber_new raw m v r) \<noteq> [] \<and>
   hd (number (PhoneNumber_new raw m v r)) = CHR ''+'' \<and>
   list_all (\<lambda>x. isdigit x \<or> x = CHR ''+'') (number (PhoneNumber_new raw m v r)) \<and>
   is_mobile (PhoneNumber_new raw m v r) = m \<and>
   is_validated (PhoneNumber_new raw m v r) = v \<and>
   region (PhoneNumber_new raw m v r) = r"
proof -
  have n: "number (PhoneNumber_new raw m v r) = normalize_number raw"
    by (simp add: PhoneNumber_new_def post_init_def)
  have e: "normalize_number raw =
     (if startswith (keep_phone_chars raw) ''0''
      then ''+94'' @ drop 1 (keep_phone_chars raw)
      else if startswith (keep_phone_chars raw) ''+''
      then keep_phone_chars raw
      else ''+94'' @ keep_phone_chars raw)"
    by (simp add: normalize_number_def to_international_def)
  have f: "is_mobile (PhoneNumber_new raw m v r) = m \<and>
     is_validated (PhoneNumber_new raw m v r) = v \<and>
     region (PhoneNumber_new raw m v r) = r"
    by (simp add: PhoneNumber_new_def post_init_def)
  show ?thesis
    unfolding n
    using e f normalize_number_head [of raw] normalize_number_chars [of raw] by blast
qed

theorem phone_number_international_witness:
  "number (PhoneNumber_new [] None False None) = ''+94'' \<and>
   number (PhoneNumber_new ''771234567'' None False None) = ''+94771234567'' \<and>
   number (PhoneNumber_new ''077-123 4567'' None False None) = ''+94771234567'' \<and>
   number (PhoneNumber_new ''+94 77 123 4567'' None False None) = ''+94771234567'' \<and>
   number (PhoneNumber_new ''tel: 12'' None False None) = ''+9412''"
proof -
  have k: "keep_phone_chars [] = []"
    "keep_phone_chars ''771234567'' = ''771234567''"
    "keep_phone_chars ''077-123 4567'' = ''0771234567''"
    "keep_phone_chars ''+94 77 123 4567'' = ''+94771234567''"
    "keep_phone_chars ''tel: 12'' = ''12''"
    by (simp_all add: keep_phone_chars_def isdigit_def)
  have a: "number (PhoneNumber_new [] None False None) = ''+94''"
    using phone_number_international [of "[]" None False None, THEN conjunct1]
    by (simp add: k startswith_def)
  have b: "number (PhoneNumber_new ''771234567'' None False None) = ''+94771234567''"
    using phone_number_international [of "''771234567''" None False None, THEN conjunct1]
    by (simp add: k startswith_def)
  have c: "number (PhoneNumber_new ''077-123 4567'' None False None) = ''+94771234567''"
    using phone_number_international [of "''077-123 4567''" None False None, THEN conjunct1]
    by (simp add: k startswith_def)
  have d: "number (PhoneNumber_new ''+94 77 123 4567'' None False None) = ''+94771234567''"
    using phone_number_international [of "''+94 77 123 4567''" None False None, THEN conjunct1]
    by (simp add: k startswith_def)
  have e: "number (PhoneNumber_new ''tel: 12'' None False None) = ''+9412''"
    using phone_number_international [of "''tel: 12''" None False None, THEN conjunct1]
    by (simp add: k startswith_def)
  show ?thesis using a b c d e by blast
qed

section \<open>Properties of the merge of subdivision results\<close>

lemma add_business_businesses:
  "businesses (add_business r b) = businesses r @ [b]"
  by (simp add: add_business_def Let_def)

lemma add_business_total_found:
  "total_found (add_business r b) = int (length (businesses (add_business r b)))"
  by (simp add: add_business_def Let_def)

lemma list_ex_name:
  "list_ex (\<lambda>x. name x = name b) xs \<longleftrightarrow> name b \<in> set (map name xs)"
  by (induction xs) auto

lemma merge_businesses_names:
  "set (map name (businesses (merge_businesses bs r))) =
     set (map name (businesses r)) \<union> set (map name bs)"
proof (induction bs arbitrary: r)
  case Nil
  then show ?case by simp
next
  case (Cons b bs)
  show ?case
  proof (cases "list_ex (\<lambda>x. name x = name b) (businesses r)")
    case True
    then have "name b \<in> set (map name (businesses r))" by (simp add: list_ex_name)
    then show ?thesis using True Cons.IH [of r] by auto
  next
    case False
    then show ?thesis
      using Cons.IH [of "add_business r b"] by (simp add: add_business_businesses)
  qed
qed

lemma merge_businesses_distinct:
  "distinct (map name (businesses r)) \<Longrightarrow>
     distinct (map name (businesses (merge_businesses bs r)))"
proof (induction bs arbitrary: r)
  case Nil
  then show ?case by simp
next
  case (Cons b bs)
  show ?case
  proof (cases "list_ex (\<lambda>x. name x = name b) (businesses r)")
    case True
    then show ?thesis using Cons.IH [OF Cons.prems] by simp
  next
    case False
    then have "name b \<notin> set (map name (businesses r))" by (simp add: list_ex_name)
    then have "distinct (map name (businesses (add_business r b)))"
      using Cons.prems by (simp add: add_business_businesses)
    then show ?thesis using False Cons.IH [of "add_business r b"] by simp
  qed
qed

lemma merge_businesses_total_found:
  "total_found r = int (length (businesses r)) \<Longrightarrow>
     total_found (merge_businesses bs r) = int (length (businesses (merge_businesses bs r)))"
  by (induction bs arbitrary: r) (auto simp: add_business_total_found)

lemma find_append_if:
  "find P (xs @ ys) = (case find P xs of Some x \<Rightarrow> Some x | None \<Rightarrow> find P ys)"
  by (induction xs) auto

lemma merge_businesses_find:
  "find (\<lambda>b. name b = n) (businesses (merge_businesses bs r)) =
     find (\<lambda>b. name b = n) (businesses r @ bs)"
proof (induction bs arbitrary: r)
  case Nil
  then show ?case by simp
next
  case (Cons b bs)
  show ?case
  proof (cases "list_ex (\<lambda>x. name x = name b) (businesses r)")
    case True
    then have known: "name b = n \<Longrightarrow> find (\<lambda>x. name x = n) (businesses r) \<noteq> None"
      by (auto simp: find_None_iff list_ex_iff)
    have "find (\<lambda>x. name x = n) (businesses (merge_businesses (b # bs) r)) =
          find (\<lambda>x. name x = n) (businesses r @ bs)"
      using True Cons.IH [of r] by simp
    also have "\<dots> = find (\<lambda>x. name x = n) (businesses r @ b # bs)"
      using known by (auto simp: find_append_if split: option.splits)
    finally show ?thesis .
  next
    case False
    then show ?thesis
      using Cons.IH [of "add_business r b"] by (simp add: add_business_businesses)
  qed
qed

lemma merge_businesses_length:
  "length (businesses r) \<le> length (businesses (merge_businesses bs r))"
proof (induction bs arbitrary: r)
  case Nil
  then show ?case by simp
next
  case (Cons b bs)
  have "length (businesses r) \<le> length (businesses (add_business r b))"
    by (simp add: add_business_businesses)
  then show ?case
    using Cons.IH [of r] Cons.IH [of "add_business r b"] by auto
qed

lemma distinct_names_filter:
  "distinct (map f xs) \<Longrightarrow> find (\<lambda>x. f x = n) xs = Some y \<Longrightarrow>
     filter (\<lambda>x. f x = n) xs = [y]"
proof (induction xs)
  case Nil
  then show ?case by simp
next
  case (Cons x xs)
  show ?case
  proof (cases "f x = n")
    case True
    then have "y = x" using Cons.prems(2) by simp
    moreover have "filter (\<lambda>z. f z = n) xs = []"
    proof -
      have "f x \<notin> f ` set xs" using Cons.prems(1) by simp
      then have "\<forall>z \<in> set xs. f z \<noteq> n" using True by (metis imageI)
      then show ?thesis by (simp add: filter_empty_conv)
    qed
    ultimately show ?thesis using True by simp
  next
    case False
    then show ?thesis using Cons by simp
  qed
qed

section \<open>Properties of the loop over the subdivisions\<close>

lemma search_cells_Cons_stop:
  "max_results params \<le>
     int (length (businesses (merge_businesses (businesses (collab i (sub_params params cell))) r)))
   \<Longrightarrow> search_cells collab params i (cell # rest) r =
     (merge_businesses (businesses (collab i (sub_params params cell))) r,
      [sub_params params cell])"
  by (simp add: Let_def)

lemma search_cells_Cons_continue:
  "\<not> max_results params \<le>
     int (length (businesses (merge_businesses (businesses (collab i (sub_params params cell))) r)))
   \<Longrightarrow> search_cells collab params i (cell # rest) r =
     (fst (search_cells collab params (Suc i) rest
        (merge_businesses (businesses (collab i (sub_params params cell))) r)),
      sub_params params cell #
      snd (search_cells collab params (Suc i) rest
        (merge_businesses (businesses (collab i (sub_params params cell))) r)))"
  by (simp add: Let_def split: prod.splits)

lemma search_cells_distinct:
  "distinct (map name (businesses r)) \<Longrightarrow>
     distinct (map name (businesses (fst (search_cells collab params i cells r))))"
proof (induction cells arbitrary: i r)
  case Nil
  then show ?case by simp
next
  case (Cons cell rest)
  let ?r' = "merge_businesses (businesses (collab i (sub_params params cell))) r"
  have d: "distinct (map name (businesses ?r'))"
    using Cons.prems by (rule merge_businesses_distinct)
  show ?case
  proof (cases "max_results params \<le> int (length (businesses ?r'))")
    case True
    then show ?thesis using d by (simp add: search_cells_Cons_stop del: search_cells.simps)
  next
    case False
    then show ?thesis
      using Cons.IH [OF d] by (simp add: search_cells_Cons_continue del: search_cells.simps)
  qed
qed

lemma search_cells_total_found:
  "total_found r = int (length (businesses r)) \<Longrightarrow>
     total_found (fst (search_cells collab params i cells r)) =
       int (length (businesses (fst (search_cells collab params i cells r))))"
proof (induction cells arbitrary: i r)
  case Nil
  then show ?case by simp
next
  case (Cons cell rest)
  let ?r' = "merge_businesses (businesses (collab i (sub_params params cell))) r"
  have d: "total_found ?r' = int (length (businesses ?r'))"
    using Cons.prems by (rule merge_businesses_total_found)
  show ?case
  proof (cases "max_results params \<le> int (length (businesses ?r'))")
    case True
    then show ?thesis using d by (simp add: search_cells_Cons_stop del: search_cells.simps)
  next
    case False
    then show ?thesis
      using Cons.IH [OF d] by (simp add: search_cells_Cons_continue del: search_cells.simps)
  qed
qed

lemma search_cells_calls:
  "length (snd (search_cells collab params i cells r)) \<le> length cells \<and>
   snd (search_cells collab params i cells r) =
     map (sub_params params) (take (length (snd (search_cells collab params i cells r))) cells)"
proof (induction cells arbitrary: i r)
  case Nil
  then show ?case by simp
next
  case (Cons cell rest)
  let ?r' = "merge_businesses (businesses (collab i (sub_params params cell))) r"
  show ?case
  proof (cases "max_results params \<le> int (length (businesses ?r'))")
    case True
    then show ?thesis by (simp add: search_cells_Cons_stop del: search_cells.simps)
  next
    case False
    then show ?thesis
      using Cons.IH [of "Suc i" ?r']
      by (simp add: search_cells_Cons_continue del: search_cells.simps)
  qed
qed

lemma search_cells_nonempty:
  "cells \<noteq> [] \<Longrightarrow> snd (search_cells collab params i cells r) \<noteq> []"
  by (cases cells) (auto simp: Let_def split: prod.splits)

lemma search_cells_prefix:
  "search_cells collab params i
     (take (length (snd (search_cells collab params i cells r))) cells) r =
   search_cells collab params i cells r"
proof (induction cells arbitrary: i r)
  case Nil
  then show ?case by simp
next
  case (Cons cell rest)
  let ?r' = "merge_businesses (businesses (collab i (sub_params params cell))) r"
  show ?case
  proof (cases "max_results params \<le> int (length (businesses ?r'))")
    case True
    then show ?thesis by (simp add: search_cells_Cons_stop del: search_cells.simps)
  next
    case False
    then show ?thesis
      using Cons.IH [of "Suc i" ?r']
      by (simp add: search_cells_Cons_continue del: search_cells.simps)
  qed
qed

lemma search_cells_below_cap:
  "0 < j \<Longrightarrow> j < length (snd (search_cells collab params i cells r)) \<Longrightarrow>
     int (length (businesses (fst (search_cells collab params i (take j cells) r))))
       < max_results params"
proof (induction cells arbitrary: i r j)
  case Nil
  then show ?case by simp
next
  case (Cons cell rest)
  let ?r' = "merge_businesses (businesses (collab i (sub_params params cell))) r"
  show ?case
  proof (cases "max_results params \<le> int (length (businesses ?r'))")
    case True
    then show ?thesis
      using Cons.prems by (simp add: search_cells_Cons_stop del: search_cells.simps)
  next
    case False
    obtain k where k: "j = Suc k" using Cons.prems(1) by (cases j) auto
    have len: "k < length (snd (search_cells collab params (Suc i) rest ?r'))"
      using Cons.prems(2) False k
      by (simp add: search_cells_Cons_continue del: search_cells.simps)
    show ?thesis
    proof (cases "k = 0")
      case True
      then show ?thesis
        using \<open>\<not> max_results params \<le> int (length (businesses ?r'))\<close> k
        by (simp add: search_cells_Cons_continue del: search_cells.simps(2))
    next
      case False
      then have "int (length (businesses (fst (search_cells collab params (Suc i) (take k rest) ?r'))))
              < max_results params"
        using Cons.IH [of k "Suc i" ?r'] len by simp
      then show ?thesis
        using \<open>\<not> max_results params \<le> int (length (businesses ?r'))\<close> k
        by (simp add: search_cells_Cons_continue del: search_cells.simps)
    qed
  qed
qed

lemma search_cells_find:
  "find (\<lambda>b. name b = n) (businesses (fst (search_cells collab params i cells r))) =
   find (\<lambda>b. name b = n)
     (businesses r @
      concat (map businesses
        (take (length (snd (search_cells collab params i cells r)))
           (cell_results collab params i cells))))"
proof (induction cells arbitrary: i r)
  case Nil
  then show ?case by simp
next
  case (Cons cell rest)
  let ?r' = "merge_businesses (businesses (collab i (sub_params params cell))) r"
  have m: "find (\<lambda>b. name b = n) (businesses ?r') =
           find (\<lambda>b. name b = n) (businesses r @ businesses (collab i (sub_params params cell)))"
    by (rule merge_businesses_find)
  show ?case
  proof (cases "max_results params \<le> int (length (businesses ?r'))")
    case True
    then show ?thesis using m by (simp add: search_cells_Cons_stop del: search_cells.simps)
  next
    case False
    have "find (\<lambda>b. name b = n) (businesses (fst (search_cells collab params (Suc i) rest ?r'))) =
          find (\<lambda>b. name b = n) (businesses ?r' @
            concat (map businesses
              (take (length (snd (search_cells collab params (Suc i) rest ?r')))
                 (cell_results collab params (Suc i) rest))))"
      by (rule Cons.IH)
    then show ?thesis
      using False m
      by (simp add: search_cells_Cons_continue find_append_if del: search_cells.simps
          split: option.splits)
  qed
qed

lemma search_cells_cap_or_all:
  "max_results params \<le> int (length (businesses (fst (search_cells collab params i cells r))))
   \<or> (length (snd (search_cells collab params i cells r)) = length cells \<and>
       set (map name (businesses (fst (search_cells collab params i cells r)))) =
         set (map name (businesses r)) \<union>
         set (map name (concat (map businesses (cell_results collab params i cells)))))"
proof (induction cells arbitrary: i r)
  case Nil
  then show ?case by simp
next
  case (Cons cell rest)
  let ?r' = "merge_businesses (businesses (collab i (sub_params params cell))) r"
  have m: "set (map name (businesses ?r')) =
           set (map name (businesses r)) \<union>
           set (map name (businesses (collab i (sub_params params cell))))"
    by (rule merge_businesses_names)
  show ?case
  proof (cases "max_results params \<le> int (length (businesses ?r'))")
    case True
    then show ?thesis by (simp add: search_cells_Cons_stop del: search_cells.simps)
  next
    case False
    let ?res = "search_cells collab params (Suc i) rest ?r'"
    have step: "search_cells collab params i (cell # rest) r =
                (fst ?res, sub_params params cell # snd ?res)"
      using False by (rule search_cells_Cons_continue)
    from Cons.IH [of "Suc i" ?r'] show ?thesis
    proof
      assume "max_results params \<le> int (length (businesses (fst ?res)))"
      then show ?thesis by (simp add: step del: search_cells.simps)
    next
      assume a: "length (snd ?res) = length rest \<and>
         set (map name (businesses (fst ?res))) =
           set (map name (businesses ?r')) \<union>
           set (map name (concat (map businesses (cell_results collab params (Suc i) rest))))"
      have "length (snd (search_cells collab params i (cell # rest) r)) = length (cell # rest)"
        using a by (simp add: step del: search_cells.simps)
      moreover have "set (map name (businesses (fst (search_cells collab params i (cell # rest) r)))) =
         set (map name (businesses r)) \<union>
         set (map name (concat (map businesses (cell_results collab params i (cell # rest)))))"
        using a m by (simp add: step Un_assoc del: search_cells.simps)
      ultimately show ?thesis by blast
    qed
  qed
qed

lemma cell_results_length: "length (cell_results collab params i cells) = length cells"
  by (induction cells arbitrary: i) auto

lemma find_concat_none:
  "\<forall>l < length xss. find P (xss ! l) = None \<Longrightarrow> find P (concat xss) = None"
proof (induction xss)
  case Nil
  then show ?case by simp
next
  case (Cons xs xss)
  have "find P xs = None" using Cons.prems by auto
  moreover have "\<forall>l < length xss. find P (xss ! l) = None" using Cons.prems by auto
  ultimately show ?case using Cons.IH by (simp add: find_append_if)
qed

subsection \<open>The loop on a given list of cells\<close>

text \<open>
  The two lemmas of this part are about the loop of lines 214-252 run on any list of
  cells. The program hands the loop the list of \<open>subdivide_area\<close> only, which has one
  cell; the lemmas say what the loop does with more.

  When the cells would together yield more than \<open>max_results\<close> businesses of different
  names, the combined result holds at least \<open>max_results\<close> businesses, of pairwise
  different names, and \<open>total_found\<close> is their number. The cap is checked between cells
  only: the collaborator is called for an initial segment of the cells, in order; the
  cells after that segment have no influence on the result; and no cell is searched once
  the merge of the cells before it has reached \<open>max_results\<close>.
\<close>

lemma search_cells_cap:
  assumes run: "search_cells collab params 0 cells (SearchResult_new params) = (res, calls)"
    and more: "max_results params <
       int (card (set (map name (concat (map businesses (cell_results collab params 0 cells))))))"
  shows "max_results params \<le> int (length (businesses res)) \<and>
         distinct (map name (businesses res)) \<and>
         total_found res = int (length (businesses res)) \<and>
         length calls \<le> length cells \<and>
         calls = map (sub_params params) (take (length calls) cells) \<and>
         search_cells collab params 0 (take (length calls) cells) (SearchResult_new params) =
           (res, calls) \<and>
         (\<forall>j. 0 < j \<and> j < length calls \<longrightarrow>
            int (length (businesses
              (fst (search_cells collab params 0 (take j cells) (SearchResult_new params)))))
              < max_results params)"
proof -
  let ?r0 = "SearchResult_new params"
  have res: "res = fst (search_cells collab params 0 cells ?r0)"
    and calls: "calls = snd (search_cells collab params 0 cells ?r0)"
    using run by simp_all
  have r0: "businesses ?r0 = []" "total_found ?r0 = int (length (businesses ?r0))"
    by (simp_all add: SearchResult_new_def)
  have dist: "distinct (map name (businesses res))"
    unfolding res by (rule search_cells_distinct) (simp add: r0)
  have total: "total_found res = int (length (businesses res))"
    unfolding res by (rule search_cells_total_found) (rule r0(2))
  have cap: "max_results params \<le> int (length (businesses res))"
    using search_cells_cap_or_all [of params collab 0 cells ?r0]
  proof
    assume "max_results params \<le>
      int (length (businesses (fst (search_cells collab params 0 cells ?r0))))"
    then show ?thesis by (simp only: res)
  next
    assume "length (snd (search_cells collab params 0 cells ?r0)) = length cells \<and>
       set (map name (businesses (fst (search_cells collab params 0 cells ?r0)))) =
         set (map name (businesses ?r0)) \<union>
         set (map name (concat (map businesses (cell_results collab params 0 cells))))"
    then have "set (map name (businesses res)) =
         set (map name (concat (map businesses (cell_results collab params 0 cells))))"
      by (simp add: res r0(1))
    then have "card (set (map name (concat (map businesses (cell_results collab params 0 cells)))))
        = length (map name (businesses res))"
      using dist by (metis distinct_card)
    then show ?thesis using more by simp
  qed
  have seg: "length calls \<le> length cells \<and>
             calls = map (sub_params params) (take (length calls) cells)"
    unfolding calls by (rule search_cells_calls)
  have pre: "search_cells collab params 0 (take (length calls) cells) ?r0 = (res, calls)"
    unfolding calls using search_cells_prefix [of collab params 0 cells ?r0] run by simp
  have below: "\<forall>j. 0 < j \<and> j < length calls \<longrightarrow>
            int (length (businesses (fst (search_cells collab params 0 (take j cells) ?r0))))
              < max_results params"
    unfolding calls using search_cells_below_cap [of _ collab params 0 cells ?r0] by blast
  show ?thesis using cap dist total seg pre below by blast
qed

text \<open>
  When an earlier cell \<open>i\<close> and a later cell \<open>j\<close>, both searched, each return a
  business of the name \<open>n\<close>, the combined result holds exactly one business of that
  name: the first business of that name in the results of the cells up to the earlier
  one, so the first such business of cell \<open>i\<close> when no cell before \<open>i\<close> returned the
  name. Nothing of the later occurrence is taken over.
\<close>

lemma search_cells_first_cell_wins:
  assumes run: "search_cells collab params 0 cells (SearchResult_new params) = (res, calls)"
    and ij: "i < j" "j < length calls"
    and b1: "b1 \<in> set (businesses (cell_results collab params 0 cells ! i))" "name b1 = n"
    and b2: "b2 \<in> set (businesses (cell_results collab params 0 cells ! j))" "name b2 = n"
  shows "\<exists>x. filter (\<lambda>b. name b = n) (businesses res) = [x] \<and>
           find (\<lambda>b. name b = n)
             (concat (map businesses (take (Suc i) (cell_results collab params 0 cells))))
             = Some x \<and>
           ((\<forall>l < i. find (\<lambda>b. name b = n)
                        (businesses (cell_results collab params 0 cells ! l)) = None) \<longrightarrow>
            find (\<lambda>b. name b = n) (businesses (cell_results collab params 0 cells ! i))
              = Some x)"
proof -
  let ?r0 = "SearchResult_new params"
  let ?rs = "cell_results collab params 0 cells"
  let ?P = "\<lambda>b. name b = n"
  let ?upto = "concat (map businesses (take (Suc i) ?rs))"
  have res: "res = fst (search_cells collab params 0 cells ?r0)"
    and calls: "calls = snd (search_cells collab params 0 cells ?r0)"
    using run by simp_all
  have r0: "businesses ?r0 = []" by (simp add: SearchResult_new_def)
  have "length calls \<le> length cells"
    unfolding calls using search_cells_calls [of collab params 0 cells ?r0] by blast
  then have i_len: "i < length ?rs" and i_calls: "Suc i \<le> length calls"
    using ij by (simp_all add: cell_results_length)
  have "?rs ! i \<in> set (take (Suc i) ?rs)"
    using i_len by (simp add: take_Suc_conv_app_nth)
  then have "b1 \<in> set ?upto" using b1(1) by auto
  then have "find ?P ?upto \<noteq> None" using b1(2) by (auto simp: find_None_iff)
  then obtain x where x: "find ?P ?upto = Some x" by blast
  have "take (length calls) ?rs = take (Suc i) ?rs @ drop (Suc i) (take (length calls) ?rs)"
    using i_calls by (metis append_take_drop_id min.absorb1 take_take)
  then have "concat (map businesses (take (length calls) ?rs)) =
       ?upto @ concat (map businesses (drop (Suc i) (take (length calls) ?rs)))"
    by (metis concat_append map_append)
  then have "find ?P (concat (map businesses (take (length calls) ?rs))) = Some x"
    using x by (simp add: find_append_if)
  then have "find ?P (businesses res) = Some x"
    using search_cells_find [of n collab params 0 cells ?r0] by (simp add: res calls r0)
  moreover have "distinct (map name (businesses res))"
    unfolding res by (rule search_cells_distinct) (simp add: r0)
  ultimately have one: "filter ?P (businesses res) = [x]"
    by (rule distinct_names_filter [rotated])
  have first: "find ?P (businesses (?rs ! i)) = Some x"
    if none: "\<forall>l < i. find ?P (businesses (?rs ! l)) = None"
  proof -
    have "\<forall>l < length (map businesses (take i ?rs)).
            find ?P (map businesses (take i ?rs) ! l) = None"
      using none i_len by simp
    then have "find ?P (concat (map businesses (take i ?rs))) = None"
      by (rule find_concat_none)
    moreover have "?upto = concat (map businesses (take i ?rs)) @ businesses (?rs ! i)"
      using i_len by (simp add: take_Suc_conv_app_nth)
    ultimately show ?thesis using x by (simp add: find_append_if)
  qed
  show ?thesis using one x first by blast
qed

subsection \<open>The example runs\<close>

lemmas example_defs =
  example_collab_def cafe_collab_def empty_collab_def collaborator_result_def
  example_params_def example_cells_def Business_new_def add_business_def
  SearchResult_new_def SearchParameters_new_def Location_new_def sub_params_def

lemma example_run_two:
  "search_cells example_collab example_params 0 (take 2 example_cells)
     (SearchResult_new example_params) =
   (collaborator_result example_params
      [Business_new ''A'', Business_new ''B'', Business_new ''C'', Business_new ''D''],
    map (sub_params example_params) (take 2 example_cells))"
  by (simp add: example_defs Let_def)

lemma example_run_three:
  "search_cells example_collab example_params 0 example_cells
     (SearchResult_new example_params) =
   (collaborator_result example_params
      [Business_new ''A'', Business_new ''B'', Business_new ''C'', Business_new ''D''],
    map (sub_params example_params) (take 2 example_cells))"
  by (simp add: example_defs Let_def)

lemma example_unique_two:
  "card (set (map name (concat (map businesses
     (cell_results example_collab example_params 0 (take 2 example_cells)))))) = 4"
  by (simp add: example_defs)

lemma example_unique_three:
  "card (set (map name (concat (map businesses
     (cell_results example_collab example_params 0 example_cells))))) = 5"
  by (simp add: example_defs)

lemma cafe_run:
  "search_cells cafe_collab example_params 0 example_cells (SearchResult_new example_params) =
   (collaborator_result example_params [Business_new ''Cafe X'', Business_new ''Cafe Y''],
    map (sub_params example_params) example_cells)"
  by (simp add: example_defs Let_def)

lemma cafe_cell_results:
  "map businesses (cell_results cafe_collab example_params 0 example_cells) =
   [[Business_new ''Cafe X''],
    [(Business_new ''Cafe X'')\<lparr> website := Some ''https://cafe-x.example'' \<rparr>,
     Business_new ''Cafe Y''],
    [(Business_new ''Cafe X'')\<lparr> website := Some ''https://cafe-x.example'' \<rparr>,
     Business_new ''Cafe Y'']]"
  by (simp add: example_defs)

lemma search_cells_cap_example:
  "\<exists>res calls.
     search_cells example_collab example_params 0 example_cells
       (SearchResult_new example_params) = (res, calls) \<and>
     max_results example_params <
       int (card (set (map name (concat (map businesses
         (cell_results example_collab example_params 0 example_cells)))))) \<and>
     max_results example_params = 3 \<and>
     map name (businesses res) = [''A'', ''B'', ''C'', ''D''] \<and>
     max_results example_params \<le> int (length (businesses res)) \<and>
     distinct (map name (businesses res)) \<and>
     length calls = 2 \<and> length example_cells = 3"
proof -
  let ?res = "collaborator_result example_params
      [Business_new ''A'', Business_new ''B'', Business_new ''C'', Business_new ''D'']"
  let ?calls = "map (sub_params example_params) (take 2 example_cells)"
  have run: "search_cells example_collab example_params 0 example_cells
       (SearchResult_new example_params) = (?res, ?calls)"
    by (rule example_run_three)
  have m: "max_results example_params = 3"
    by (simp add: example_params_def SearchParameters_new_def)
  have more: "max_results example_params <
       int (card (set (map name (concat (map businesses
         (cell_results example_collab example_params 0 example_cells))))))"
    unfolding m example_unique_three by simp
  have names: "map name (businesses ?res) = [''A'', ''B'', ''C'', ''D'']"
    by (simp add: example_defs)
  have len: "length ?calls = 2" "length example_cells = 3"
    by (simp_all add: example_cells_def)
  have c: "max_results example_params \<le> int (length (businesses ?res)) \<and>
        distinct (map name (businesses ?res))"
    using search_cells_cap [OF run more] by blast
  show ?thesis
    by (rule exI [of _ ?res], rule exI [of _ ?calls])
       (use run more m names len c in blast)
qed

text \<open>
  On two cells that return two new businesses each, for \<open>max_results = 3\<close>, the loop
  keeps all four businesses and searches both cells: the result is never cut down to
  \<open>max_results\<close>, as \<open>_extract_businesses\<close> cuts its own list.
\<close>

lemma search_cells_overshoot_example:
  "max_results example_params = 3 \<and>
   max_results example_params <
     int (card (set (map name (concat (map businesses
       (cell_results example_collab example_params 0 (take 2 example_cells))))))) \<and>
   length (businesses (fst (search_cells example_collab example_params 0
     (take 2 example_cells) (SearchResult_new example_params)))) = 4 \<and>
   length (snd (search_cells example_collab example_params 0
     (take 2 example_cells) (SearchResult_new example_params))) =
     length (take 2 example_cells)"
proof -
  have m: "max_results example_params = 3"
    by (simp add: example_params_def SearchParameters_new_def)
  have more: "max_results example_params <
     int (card (set (map name (concat (map businesses
       (cell_results example_collab example_params 0 (take 2 example_cells)))))))"
    unfolding m example_unique_two by simp
  have "length (businesses (collaborator_result example_params
      [Business_new ''A'', Business_new ''B'', Business_new ''C'', Business_new ''D''])) = 4"
    by (simp add: example_defs)
  then show ?thesis using m more by (simp add: example_run_two)
qed

lemma search_cells_first_cell_wins_example:
  "\<exists>res calls.
     search_cells cafe_collab example_params 0 example_cells
       (SearchResult_new example_params) = (res, calls) \<and>
     (0::nat) < 1 \<and> 1 < length calls \<and>
     Business_new ''Cafe X'' \<in>
       set (businesses (cell_results cafe_collab example_params 0 example_cells ! 0)) \<and>
     (Business_new ''Cafe X'')\<lparr> website := Some ''https://cafe-x.example'' \<rparr> \<in>
       set (businesses (cell_results cafe_collab example_params 0 example_cells ! 1)) \<and>
     filter (\<lambda>b. name b = ''Cafe X'') (businesses res) = [Business_new ''Cafe X'']"
proof -
  let ?res = "collaborator_result example_params
      [Business_new ''Cafe X'', Business_new ''Cafe Y'']"
  let ?calls = "map (sub_params example_params) example_cells"
  let ?rs = "cell_results cafe_collab example_params 0 example_cells"
  let ?b2 = "(Business_new ''Cafe X'')\<lparr> website := Some ''https://cafe-x.example'' \<rparr>"
  have run: "search_cells cafe_collab example_params 0 example_cells
       (SearchResult_new example_params) = (?res, ?calls)"
    by (rule cafe_run)
  have ij: "(0::nat) < 1" "1 < length ?calls"
    by (simp_all add: example_cells_def)
  have len: "length ?rs = 3"
    by (simp add: cell_results_length example_cells_def)
  have r0: "businesses (?rs ! 0) = [Business_new ''Cafe X'']"
    using arg_cong [OF cafe_cell_results, of "\<lambda>xs. xs ! 0"] len by (simp add: nth_map)
  have r1: "businesses (?rs ! 1) = [?b2, Business_new ''Cafe Y'']"
    using arg_cong [OF cafe_cell_results, of "\<lambda>xs. xs ! 1"] len by (simp add: nth_map)
  have b1: "Business_new ''Cafe X'' \<in> set (businesses (?rs ! 0))"
    unfolding r0 by simp
  have n1: "name (Business_new ''Cafe X'') = ''Cafe X''"
    by (simp add: Business_new_def)
  have b2: "?b2 \<in> set (businesses (?rs ! 1))"
    unfolding r1 by simp
  have n2: "name ?b2 = ''Cafe X''"
    by (simp add: Business_new_def)
  from search_cells_first_cell_wins [OF run ij b1 n1 b2 n2] obtain x where
    x: "filter (\<lambda>b. name b = ''Cafe X'') (businesses ?res) = [x]"
       "find (\<lambda>b. name b = ''Cafe X'') (concat (map businesses (take (Suc 0) ?rs))) = Some x"
    by blast
  have "take (Suc 0) ?rs = [?rs ! 0]"
    using len by (cases ?rs) simp_all
  then have "find (\<lambda>b. name b = ''Cafe X'') (concat (map businesses (take (Suc 0) ?rs))) =
        Some (Business_new ''Cafe X'')"
    by (simp add: r0 Business_new_def)
  then have "x = Business_new ''Cafe X''" using x(2) by simp
  then have one: "filter (\<lambda>b. name b = ''Cafe X'') (businesses ?res) = [Business_new ''Cafe X'']"
    using x(1) by simp
  show ?thesis
    by (rule exI [of _ ?res], rule exI [of _ ?calls])
       (use run ij b1 b2 one in blast)
qed

section \<open>Properties of the area subdivision\<close>

text \<open>
  C6. For every centre and every radius not above \<open>max_radius_km\<close> the function returns
  the one-element list holding the input itself: same latitude, same longitude, the
  original radius. The result is a value, not the \<open>NameError\<close> that any use of \<open>math\<close>
  gives in this module: the guard returns before the lattice code is reached.
\<close>

theorem subdivide_area_small:
  assumes "r \<le> max_radius_km"
  shows "subdivide_area center_lat center_lng r max_radius_km =
           Inr [(center_lat, center_lng, r)]"
  using assms by (simp add: subdivide_area_def)

theorem subdivide_area_small_witness:
  "(5::real) \<le> 20 \<and>
   subdivide_area 6.9271 79.8612 5 20 = Inr [(6.9271, 79.8612, 5)] \<and>
   subdivide_area 6.9271 79.8612 20 20 = Inr [(6.9271, 79.8612, 20)]"
proof -
  have h1: "(5::real) \<le> 20" by simp
  have h2: "(20::real) \<le> 20" by simp
  show ?thesis
    using h1 subdivide_area_small [OF h1, of "6.9271" "79.8612"]
      subdivide_area_small [OF h2, of "6.9271" "79.8612"]
    by blast
qed

text \<open>Above the threshold every call ends in the \<open>NameError\<close>.\<close>

lemma subdivide_area_large:
  "max_radius_km < r \<Longrightarrow>
     subdivide_area center_lat center_lng r max_radius_km = Inl (NameError ''math'')"
  by (simp add: subdivide_area_def)

text \<open>
  The lattice of lines 261-288, read with \<open>math\<close> bound, has the two properties for every
  positive cell radius: each cell carries the radius \<open>max_radius_km\<close>, and the cell at
  the original centre is among them.
\<close>

lemma lattice_cell_radius:
  "list_all (\<lambda>c. snd (snd c) = max_radius_km)
     (lattice_cell center_lat center_lng radius_deg max_radius_deg max_radius_km i j)"
  by (simp add: lattice_cell_def Let_def)

lemma lattice_cell_centre:
  "0 \<le> radius_deg \<Longrightarrow>
     lattice_cell center_lat center_lng radius_deg max_radius_deg max_radius_km 0 0 =
       [(center_lat, center_lng, max_radius_km)]"
  by (simp add: lattice_cell_def)

lemma in_concat_map: "i \<in> set xs \<Longrightarrow> x \<in> set (f i) \<Longrightarrow> x \<in> set (concat (map f xs))"
  by auto

lemma list_all_concat_map:
  "(\<And>i. list_all P (f i)) \<Longrightarrow> list_all P (concat (map f xs))"
  by (induction xs) auto

lemma zero_in_grid: "0 < (c::int) \<Longrightarrow> 0 \<in> set [(- (c * 2)) div 2 .. (c * 2) div 2]"
  by simp

lemma subdivide_lattice_cells:
  assumes pos: "0 < max_radius_km" and big: "max_radius_km < r"
  shows "\<exists>cells. subdivide_lattice center_lat center_lng r max_radius_km = Inr cells \<and>
           list_all (\<lambda>c. snd (snd c) = max_radius_km) cells \<and>
           (center_lat, center_lng, max_radius_km) \<in> set cells"
proof -
  define k :: real where "k = 6371 * pi / 180"
  define rd where "rd = r / k"
  define md where "md = max_radius_km / k"
  define idx where "idx = [(- (\<lceil>rd / md\<rceil> * 2)) div 2 .. (\<lceil>rd / md\<rceil> * 2) div 2]"
  define row where "row = (\<lambda>i. concat (map (\<lambda>j.
      lattice_cell center_lat center_lng rd md max_radius_km i j) idx))"
  have k: "0 < k" using pi_gt_zero by (simp add: k_def)
  have md: "0 < md" unfolding md_def using pos k by (rule divide_pos_pos)
  have rd: "0 < rd" unfolding rd_def using pos big k by (simp add: divide_pos_pos)
  have "0 < rd / md" using rd md by (rule divide_pos_pos)
  then have "0 < \<lceil>rd / md\<rceil>" by (simp add: ceiling_less_iff)
  then have zero: "0 \<in> set idx" unfolding idx_def by (rule zero_in_grid)
  have "subdivide_lattice center_lat center_lng r max_radius_km =
          (if md = 0 then Inl ZeroDivisionError else Inr (concat (map row idx)))"
    unfolding subdivide_lattice_def Let_def k_def rd_def md_def idx_def row_def
    by (rule refl)
  then have eq: "subdivide_lattice center_lat center_lng r max_radius_km =
            Inr (concat (map row idx))"
    using md by simp
  have "lattice_cell center_lat center_lng rd md max_radius_km 0 0 =
        [(center_lat, center_lng, max_radius_km)]"
    using rd by (simp add: lattice_cell_centre)
  then have "(center_lat, center_lng, max_radius_km) \<in>
      set (lattice_cell center_lat center_lng rd md max_radius_km 0 0)"
    by simp
  with zero have "(center_lat, center_lng, max_radius_km) \<in> set (row 0)"
    unfolding row_def by (rule in_concat_map)
  with zero have centre: "(center_lat, center_lng, max_radius_km) \<in> set (concat (map row idx))"
    by (rule in_concat_map)
  have "list_all (\<lambda>c. snd (snd c) = max_radius_km) (row i)" for i
    unfolding row_def by (rule list_all_concat_map) (rule lattice_cell_radius)
  then have "list_all (\<lambda>c. snd (snd c) = max_radius_km) (concat (map row idx))"
    by (rule list_all_concat_map)
  then show ?thesis using eq centre by blast
qed

text \<open>
  C5. For a radius above \<open>max_radius_km\<close> the claim speaks of the list the function
  returns. The function returns no list: at the radius 30 and the threshold 20 of the
  specification's own scenario it raises \<open>NameError\<close>, since \<open>math\<close> is never imported.
\<close>

theorem subdivide_area_30_20:
  "subdivide_area 7.5 80.7 30 20 = Inl (NameError ''math'')"
  by (simp add: subdivide_area_def)

section \<open>Properties of the public entry point\<close>

text \<open>A radius above the threshold ends the request before any collaborator call.\<close>

lemma search_large_radius:
  "location_subdivision_threshold cfg < r \<Longrightarrow>
     search cfg collab q loc (Some r) m = (Inl (NameError ''math''), [])"
  by (simp add: search_def search_subdivided_area_def subdivide_area_large Let_def
      SearchParameters_new_def)

text \<open>
  Whenever the subdivided search returns a result, it has searched exactly one cell: the
  loop gets its cells from \<open>subdivide_area\<close> alone, which gives one cell or raises.
\<close>

lemma search_subdivided_area_one_cell:
  "search_subdivided_area cfg collab params = (Inr res, calls) \<Longrightarrow> length calls = 1"
  by (auto simp: search_subdivided_area_def subdivide_area_def Let_def
      split: if_splits prod.splits)

text \<open>
  C1. The claim is about a search over several cells that would together yield more
  than \<open>max_results\<close> unique businesses, and says that the combined result returned has
  exactly \<open>max_results\<close> of them. For the request of radius 30 km (threshold 20) and at
  most three results, with a collaborator whose first two invocations find four
  different businesses, no combined result is returned: the request ends in the
  \<open>NameError\<close> of \<open>subdivide_area\<close> and no collaborator call is dispatched.
\<close>

theorem search_capped_request_fails:
  "search DEFAULT_CONFIG example_collab ''cafe'' LocationNone (Some 30) (Some 3) =
     (Inl (NameError ''math''), []) \<and>
   map name (businesses (example_collab 0 example_params) @
             businesses (example_collab 1 example_params)) = [''A'', ''B'', ''C'', ''D'']"
proof -
  have "search DEFAULT_CONFIG example_collab ''cafe'' LocationNone (Some 30) (Some 3) =
     (Inl (NameError ''math''), [])"
    using search_large_radius [of DEFAULT_CONFIG 30 example_collab "''cafe''" LocationNone "Some 3"]
    by (simp add: DEFAULT_CONFIG_def)
  moreover have "map name (businesses (example_collab 0 example_params) @
             businesses (example_collab 1 example_params)) = [''A'', ''B'', ''C'', ''D'']"
    by (simp add: example_defs)
  ultimately show ?thesis by blast
qed

text \<open>
  C7. The claim is about a search over several cells in which an earlier and a later
  cell each return a business of the same name, and says that the combined result holds
  that name once, from the earlier cell. For the request of radius 30 km (threshold 20),
  with a collaborator whose first and second invocation both find \<open>Cafe X\<close>, no combined
  result is returned: the request ends in the \<open>NameError\<close> of \<open>subdivide_area\<close> and no
  collaborator call is dispatched.
\<close>

theorem search_duplicate_request_fails:
  "search DEFAULT_CONFIG cafe_collab ''cafe'' LocationNone (Some 30) (Some 3) =
     (Inl (NameError ''math''), []) \<and>
   map name (businesses (cafe_collab 0 example_params)) = [''Cafe X''] \<and>
   map name (businesses (cafe_collab 1 example_params)) = [''Cafe X'', ''Cafe Y'']"
proof -
  have "search DEFAULT_CONFIG cafe_collab ''cafe'' LocationNone (Some 30) (Some 3) =
     (Inl (NameError ''math''), [])"
    using search_large_radius [of DEFAULT_CONFIG 30 cafe_collab "''cafe''" LocationNone "Some 3"]
    by (simp add: DEFAULT_CONFIG_def)
  moreover have "map name (businesses (cafe_collab 0 example_params)) = [''Cafe X'']"
    by (simp add: example_defs)
  moreover have "map name (businesses (cafe_collab 1 example_params)) = [''Cafe X'', ''Cafe Y'']"
    by (simp add: example_defs)
  ultimately show ?thesis by blast
qed

text \<open>
  Called on its own with a radius inside the threshold, the subdivided search has the
  one cell of the request to search.
\<close>

lemma search_subdivided_area_small:
  "radius_km params \<le> location_subdivision_threshold cfg \<Longrightarrow>
     search_subdivided_area cfg collab params =
       (Inr (fst (search_cells collab params 0
          [(case location params of Some l \<Rightarrow> latitude l | None \<Rightarrow> 7.5,
            case location params of Some l \<Rightarrow> longitude l | None \<Rightarrow> 80.7,
            radius_km params)] (SearchResult_new params))),
        snd (search_cells collab params 0
          [(case location params of Some l \<Rightarrow> latitude l | None \<Rightarrow> 7.5,
            case location params of Some l \<Rightarrow> longitude l | None \<Rightarrow> 80.7,
            radius_km params)] (SearchResult_new params)))"
  by (simp add: search_subdivided_area_def subdivide_area_def Let_def split: prod.splits)

text \<open>
  A location string that the resolver does not know leaves no trace: the request runs
  exactly as the request without a location.
\<close>

lemma search_unresolved_as_none:
  "process_location cfg (LocationStr s) = None \<Longrightarrow>
     search cfg collab q (LocationStr s) r m = search cfg collab q LocationNone r m"
  by (simp add: search_def process_location_def)

lemma process_location_unknown:
  "process_location DEFAULT_CONFIG (LocationStr ''Nonexistent Town'') = None"
  by code_simp

lemma process_location_colombo:
  "process_location DEFAULT_CONFIG (LocationStr ''colombo'') =
     Some (Location_new 6.9271 79.8612 (Some ''Colombo'') None)"
  by code_simp

text \<open>
  C3. For a location string matching neither list the resolver returns null and the
  search is still executed, but the location text is not merged into the query: for the
  query \<open>restaurants\<close> and the location \<open>Nonexistent Town\<close> the one call dispatched to
  the collaborator carries the query \<open>restaurants\<close> and no location. The method logs
  that the text is used as the search query, and drops it.
\<close>

theorem search_unresolved_location_dropped:
  "process_location DEFAULT_CONFIG (LocationStr ''Nonexistent Town'') = None \<and>
   search DEFAULT_CONFIG empty_collab ''restaurants'' (LocationStr ''Nonexistent Town'')
       (Some 5) (Some 20) =
     (Inr (empty_collab 0 (SearchParameters_new ''restaurants'' None 5 20)),
      [SearchParameters_new ''restaurants'' None 5 20]) \<and>
   query (SearchParameters_new ''restaurants'' None 5 20) = ''restaurants'' \<and>
   location (SearchParameters_new ''restaurants'' None 5 20) = None"
  using process_location_unknown
  by (simp add: search_def Let_def DEFAULT_CONFIG_def SearchParameters_new_def)




end
